theory Spec2Isabelle
  imports Main "HOL-Library.Word"
begin

unbundle bit_operations_syntax

section \<open>The in-place allocator of \<^verbatim>\<open>alloc.cpp\<close>\<close>

text \<open>
  The allocator works on a caller-supplied buffer of \<open>m_size\<close> bytes and keeps all of
  its bookkeeping in that buffer. The model keeps the code's view of memory: bytes,
  addressed by their distance from the buffer's first byte. A pointer is an \<open>int\<close>
  (the offset from \<^verbatim>\<open>m_mem\<close>, negative below the buffer), \<^verbatim>\<open>nullptr\<close> is \<open>None\<close>.
  The 32-bit fields are \<open>32 word\<close>, so every \<open>+\<close>, \<open>-\<close> and \<open>*\<close> wraps as
  \<^verbatim>\<open>uint32_t\<close> does. A \<^verbatim>\<open>Block\<close> is read and written through a pointer cast at any
  byte address, so a header is four bytes of \<^verbatim>\<open>size_flags\<close> followed by four bytes
  of \<^verbatim>\<open>prev\<close>, least significant byte first (the layout of the little-endian
  machines the code runs on); two headers whose addresses are closer than eight bytes
  share bytes, as they do in the program.
\<close>

type_synonym u8 = "8 word"
type_synonym u32 = "32 word"
type_synonym addr = int
type_synonym memory = "addr \<Rightarrow> u8"

definition load32 :: "memory \<Rightarrow> addr \<Rightarrow> u32" where
  "load32 h a =
     ucast (h a) OR push_bit 8 (ucast (h (a + 1))) OR
     push_bit 16 (ucast (h (a + 2))) OR push_bit 24 (ucast (h (a + 3)))"

definition store32 :: "memory \<Rightarrow> addr \<Rightarrow> u32 \<Rightarrow> memory" where
  "store32 h a v =
     h(a := ucast v, a + 1 := ucast (drop_bit 8 v),
       a + 2 := ucast (drop_bit 16 v), a + 3 := ucast (drop_bit 24 v))"

text \<open>\<^verbatim>\<open>memset(m_mem, 0, m_size)\<close>: the \<open>n\<close> bytes of the buffer become zero.\<close>

definition memset0 :: "memory \<Rightarrow> int \<Rightarrow> memory" where
  "memset0 h n = (\<lambda>a. if 0 \<le> a \<and> a < n then 0 else h a)"

text \<open>
  The class \<^verbatim>\<open>cc0::allocator\<close>. The field \<open>m_mem\<close> holds the bytes that the pointer
  \<^verbatim>\<open>m_mem\<close> gives access to: the buffer is the addresses \<open>0 \<le> a < uint m_size\<close>, the
  other addresses are the memory around it (the program reads or writes them only
  where C++ leaves its behaviour undefined).
\<close>

record allocator =
  m_mem :: memory
  m_size :: u32
  m_align_bytes :: u32
  m_block_alignment :: u32
  m_occupied :: u32

text \<open>The two fields of \<^verbatim>\<open>struct Block\<close> at address \<open>b\<close>, and \<^verbatim>\<open>sizeof(Block)\<close>.\<close>

definition size_flags :: "allocator \<Rightarrow> addr \<Rightarrow> u32" where
  "size_flags A b = load32 (m_mem A) b"

definition prev :: "allocator \<Rightarrow> addr \<Rightarrow> u32" where
  "prev A b = load32 (m_mem A) (b + 4)"

definition set_size_flags :: "allocator \<Rightarrow> addr \<Rightarrow> u32 \<Rightarrow> allocator" where
  "set_size_flags A b v = A\<lparr>m_mem := store32 (m_mem A) b v\<rparr>"

definition set_prev :: "allocator \<Rightarrow> addr \<Rightarrow> u32 \<Rightarrow> allocator" where
  "set_prev A b v = A\<lparr>m_mem := store32 (m_mem A) (b + 4) v\<rparr>"

definition sizeof_Block :: u32 where
  "sizeof_Block = 8"

subsection \<open>The private helpers\<close>

definition get_size :: "allocator \<Rightarrow> addr \<Rightarrow> u32" where
  "get_size A b = size_flags A b AND 0x7fffffff"

definition get_prev :: "allocator \<Rightarrow> addr \<Rightarrow> addr option" where
  "get_prev A b =
     (let p = b - uint (prev A b) in
      if p < 0 then None
      else if prev A b > 0 then Some p else None)"

definition get_next :: "allocator \<Rightarrow> addr \<Rightarrow> addr option" where
  "get_next A b =
     (let next = get_size A b;
          p = b + uint next in
      if p \<ge> uint (m_size A) then None
      else if next > 0 then Some p else None)"

definition set_free :: "allocator \<Rightarrow> addr \<Rightarrow> allocator" where
  "set_free A b = set_size_flags A b (size_flags A b AND 0x7fffffff)"

definition set_occupied :: "allocator \<Rightarrow> addr \<Rightarrow> allocator" where
  "set_occupied A b = set_size_flags A b (size_flags A b OR 0x80000000)"

definition is_free :: "allocator \<Rightarrow> addr \<Rightarrow> bool" where
  "is_free A b = (size_flags A b AND 0x80000000 = 0)"

definition is_occupied :: "allocator \<Rightarrow> addr \<Rightarrow> bool" where
  "is_occupied A b = (size_flags A b AND 0x80000000 \<noteq> 0)"

definition set_size :: "allocator \<Rightarrow> addr \<Rightarrow> u32 \<Rightarrow> allocator" where
  "set_size A b sz =
     set_size_flags A b ((size_flags A b AND 0x80000000) OR (sz AND 0x7fffffff))"

definition align_num_bytes :: "allocator \<Rightarrow> u32 \<Rightarrow> u32" where
  "align_num_bytes A num_bytes =
     (num_bytes div m_align_bytes A) * m_align_bytes A +
     m_align_bytes A * (if num_bytes mod m_align_bytes A > 0 then 1 else 0)"

subsection \<open>The constructor\<close>

text \<open>
  \<open>mem\<close> is the memory the pointer argument gives access to. \<open>m_block_alignment\<close> has
  no initialiser and is assigned in the body before anything reads it; the model starts
  it at 0.
\<close>

definition allocator_ctor :: "memory \<Rightarrow> u32 \<Rightarrow> u32 \<Rightarrow> allocator" where
  "allocator_ctor mem sz align_bytes =
     (let A0 = \<lparr>m_mem = memset0 mem (uint sz), m_size = sz,
                m_align_bytes = (if align_bytes > 0 then align_bytes else 1),
                m_block_alignment = 0, m_occupied = 0\<rparr>;
          b = 0;
          A1 = set_prev A0 b 0;
          A2 = A1\<lparr>m_block_alignment := align_num_bytes A1 sizeof_Block\<rparr>;
          A3 = set_size A2 b (m_size A2 - m_block_alignment A2);
          A4 = set_free A3 b
      in A4\<lparr>m_occupied := m_occupied A4 + m_block_alignment A4\<rparr>)"

subsection \<open>\<^verbatim>\<open>alloc\<close>\<close>

text \<open>
  The first-fit loop of \<^verbatim>\<open>alloc\<close>, entered with a block that is not null:
  \<^verbatim>\<open>while (b != nullptr && (is_occupied(b) || get_size(b) < num_bytes)) b = get_next(b);\<close>
  \<open>get_next\<close> only ever returns an address that is larger than \<open>b\<close> and inside the
  buffer, which is why the loop ends.
\<close>

function alloc_loop :: "allocator \<Rightarrow> u32 \<Rightarrow> addr \<Rightarrow> addr option" where
  "alloc_loop A num_bytes b =
     (if is_occupied A b \<or> get_size A b < num_bytes
      then (case get_next A b of
              None \<Rightarrow> None
            | Some n \<Rightarrow> alloc_loop A num_bytes n)
      else Some b)"
  by pat_completeness auto
termination
proof (relation "measure (\<lambda>(A, num_bytes, b). nat (uint (m_size A) - b))")
  show "wf (measure (\<lambda>(A, num_bytes, b). nat (uint (m_size A) - b)))"
    by simp
next
  fix A :: allocator and num_bytes :: u32 and b n :: addr
  assume "get_next A b = Some n"
  then have "b < n \<and> n < uint (m_size A)"
    by (auto simp: get_next_def Let_def word_greater_zero_iff uint_0_iff
             split: if_splits)
       (metis uint_0_iff uint_lt_0 linorder_neqE_linordered_idom)
  then show "((A, num_bytes, n), (A, num_bytes, b))
      \<in> measure (\<lambda>(A, num_bytes, b). nat (uint (m_size A) - b))"
    by simp
qed

text \<open>
  The body of \<^verbatim>\<open>alloc\<close>. The result is \<open>None\<close> when the program dereferences a null
  pointer (the split writes through \<^verbatim>\<open>get_next(b)\<close> without a test); otherwise it is
  the returned pointer (\<open>None\<close> for \<^verbatim>\<open>nullptr\<close>) and the allocator afterwards.
\<close>

definition alloc :: "allocator \<Rightarrow> u32 \<Rightarrow> (addr option \<times> allocator) option" where
  "alloc A num_bytes0 =
     (if num_bytes0 = 0 then Some (None, A)
      else
        let num_bytes = align_num_bytes A num_bytes0 in
        case alloc_loop A num_bytes 0 of
          None \<Rightarrow> Some (None, A)
        | Some b \<Rightarrow>
            let A1 = set_occupied A b in
            if get_size A1 b \<ge> num_bytes + m_align_bytes A1 + m_block_alignment A1
            then
              let free_size = get_size A1 b - num_bytes - m_block_alignment A1;
                  A2 = set_size A1 b num_bytes
              in case get_next A2 b of
                   None \<Rightarrow> None
                 | Some n \<Rightarrow>
                     let A3 = set_free A2 n;
                         A4 = set_size A3 n free_size;
                         A5 = set_prev A4 n num_bytes;
                         A6 = A5\<lparr>m_occupied := m_occupied A5 + m_block_alignment A5\<rparr>;
                         A7 = A6\<lparr>m_occupied := m_occupied A6 + get_size A6 b\<rparr>
                     in Some (Some (b + uint (m_block_alignment A7)), A7)
            else
              let A7 = A1\<lparr>m_occupied := m_occupied A1 + get_size A1 b\<rparr>
              in Some (Some (b + uint (m_block_alignment A7)), A7))"

subsection \<open>\<^verbatim>\<open>free\<close>\<close>

text \<open>
  The two coalescing steps of \<^verbatim>\<open>free\<close>, each on the allocator, the current block
  \<open>b\<close> and the flag \<open>remove_block\<close>.
\<close>

definition free_prev :: "allocator \<times> addr \<times> bool \<Rightarrow> allocator \<times> addr \<times> bool" where
  "free_prev = (\<lambda>(A, b, remove_block).
     case get_prev A b of
       None \<Rightarrow> (A, b, remove_block)
     | Some p \<Rightarrow>
         if is_free A p
         then (set_size A p (get_size A b + get_size A p), p, True)
         else (A, b, remove_block))"

definition free_next :: "allocator \<times> addr \<times> bool \<Rightarrow> allocator \<times> addr \<times> bool" where
  "free_next = (\<lambda>(A, b, remove_block).
     case get_next A b of
       None \<Rightarrow> (A, b, remove_block)
     | Some n \<Rightarrow>
         if is_free A n
         then (set_size A b (get_size A b + get_size A n), b, True)
         else (A, b, remove_block))"

definition free :: "allocator \<Rightarrow> addr \<Rightarrow> allocator" where
  "free A mem0 =
     (let mem = mem0 - uint (m_block_alignment A) in
      if mem \<ge> uint (m_size A) \<or> mem < 0 then A
      else
        let b = mem;
            A1 = set_free A b;
            A2 = A1\<lparr>m_occupied := m_occupied A1 - get_size A1 b\<rparr>;
            (A3, b3, remove_block) = free_next (free_prev (A2, b, False))
        in if remove_block
           then A3\<lparr>m_occupied := m_occupied A3 - m_block_alignment A3\<rparr>
           else A3)"

definition occupied_bytes :: "allocator \<Rightarrow> u32" where
  "occupied_bytes A = m_occupied A"

definition total_bytes :: "allocator \<Rightarrow> u32" where
  "total_bytes A = m_size A"

subsection \<open>Running the allocator\<close>

text \<open>
  Names for the states of the examples below: the allocator after a call of \<^verbatim>\<open>alloc\<close>
  that returned (\<open>after_alloc\<close>; where the call dereferences null there is no state
  after it and the name stands for the state before), a caller storing one byte through
  a pointer into the buffer (\<open>poke\<close>), memory that is zero everywhere, and the allocator
  \<^verbatim>\<open>allocator(mem, n, 8)\<close> over such memory.
\<close>

definition after_alloc :: "allocator \<Rightarrow> u32 \<Rightarrow> allocator" where
  "after_alloc A num_bytes = (case alloc A num_bytes of Some (p, A') \<Rightarrow> A' | None \<Rightarrow> A)"

definition poke :: "allocator \<Rightarrow> addr \<Rightarrow> u8 \<Rightarrow> allocator" where
  "poke A a v = A\<lparr>m_mem := (m_mem A)(a := v)\<rparr>"

definition zero_memory :: memory where
  "zero_memory = (\<lambda>a. 0)"

definition fresh :: "u32 \<Rightarrow> allocator" where
  "fresh n = allocator_ctor zero_memory n 8"

text \<open>
  The blocks as the allocator itself walks them: from \<open>b\<close>, following \<open>get_next\<close> until
  it answers null.
\<close>

function blocks_from :: "allocator \<Rightarrow> addr \<Rightarrow> addr list" where
  "blocks_from A b =
     b # (case get_next A b of None \<Rightarrow> [] | Some n \<Rightarrow> blocks_from A n)"
  by pat_completeness auto
termination
proof (relation "measure (\<lambda>(A, b). nat (uint (m_size A) - b))")
  show "wf (measure (\<lambda>(A, b). nat (uint (m_size A) - b)))"
    by simp
next
  fix A :: allocator and b n :: addr
  assume "get_next A b = Some n"
  then have "b < n \<and> n < uint (m_size A)"
    by (auto simp: get_next_def Let_def word_greater_zero_iff uint_0_iff
             split: if_splits)
       (metis uint_0_iff uint_lt_0 linorder_neqE_linordered_idom)
  then show "((A, n), (A, b)) \<in> measure (\<lambda>(A, b). nat (uint (m_size A) - b))"
    by simp
qed

text \<open>
  The bytes the blocks stand for: for each block its header footprint and its payload
  size.
\<close>

definition extent :: "allocator \<Rightarrow> addr \<Rightarrow> int" where
  "extent A b = uint (m_block_alignment A) + uint (get_size A b)"

definition extent_sum :: "allocator \<Rightarrow> int" where
  "extent_sum A = sum_list (map (extent A) (blocks_from A 0))"

text \<open>
  Two states of the 72-byte buffer that the examples share: after \<open>alloc 8\<close> twice and
  three times. The calls return the payload addresses 8, 16 and 24.
\<close>

definition two_allocated :: allocator where
  "two_allocated = after_alloc (after_alloc (fresh 72) 8) 8"

definition three_allocated :: allocator where
  "three_allocated = after_alloc (after_alloc (after_alloc (fresh 72) 8) 8) 8"

section \<open>Loads and stores\<close>

lemma load32_store32_same: "load32 (store32 h a v) a = v"
proof (rule bit_word_eqI)
  fix n :: nat
  assume n: "n < LENGTH(32)"
  then consider "n < 8" | "8 \<le> n" "n < 16" | "16 \<le> n" "n < 24" | "24 \<le> n" "n < 32"
    by fastforce
  then show "bit (load32 (store32 h a v) a) n = bit v n"
  proof cases
    case 1
    then show ?thesis
      unfolding load32_def store32_def by (simp add: bit_simps)
  next
    case 2
    then have "\<not> n < 8" "n - 8 < 8" "n < 24" "n < 32" by auto
    with 2 show ?thesis
      unfolding load32_def store32_def by (simp add: bit_simps)
  next
    case 3
    then have "\<not> n < 8" "\<not> n - 8 < 8" "n - 16 < 8" "8 \<le> n" "n < 32" by auto
    with 3 show ?thesis
      unfolding load32_def store32_def by (simp add: bit_simps)
  next
    case 4
    then have "\<not> n < 8" "\<not> n - 8 < 8" "\<not> n - 16 < 8" "n - 24 < 8" "8 \<le> n" "16 \<le> n"
      by auto
    with 4 show ?thesis
      unfolding load32_def store32_def by (simp add: bit_simps)
  qed
qed

lemma load32_store32_other:
  "a' + 4 \<le> a \<or> a + 4 \<le> a' \<Longrightarrow> load32 (store32 h a v) a' = load32 h a'"
  unfolding load32_def store32_def by auto

lemma load32_store32:
  "a' = a \<or> a' + 4 \<le> a \<or> a + 4 \<le> a' \<Longrightarrow>
   load32 (store32 h a v) a' = (if a' = a then v else load32 h a')"
  using load32_store32_same load32_store32_other by auto

lemma store32_store32: "store32 (store32 h a v) a w = store32 h a w"
  by (simp add: store32_def)

lemma load32_zero_memory: "load32 zero_memory a = 0"
  by (simp add: load32_def zero_memory_def)

lemma memset0_zero_memory: "memset0 zero_memory n = zero_memory"
  by (rule ext) (simp add: memset0_def zero_memory_def)

text \<open>
  The equations that run the allocator on a concrete state. The examples below only
  load and store whole words at addresses that are equal or at least four bytes apart,
  so memory stays a chain of \<open>store32\<close> over \<open>zero_memory\<close>.
\<close>

lemmas run =
  fresh_def allocator_ctor_def alloc_def after_alloc_def free_def free_prev_def free_next_def
  get_next_def get_prev_def get_size_def set_free_def set_occupied_def set_size_def
  is_free_def is_occupied_def align_num_bytes_def sizeof_Block_def
  size_flags_def prev_def set_size_flags_def set_prev_def
  occupied_bytes_def total_bytes_def
  load32_zero_memory memset0_zero_memory load32_store32 store32_store32 Let_def

section \<open>The flag bit and the size bits\<close>

lemma size_mask: "(0x7fffffff :: u32) = mask 31"
  by (simp add: mask_eq_exp_minus_1)

lemma bit_flag: "bit (0x80000000 :: u32) n \<longleftrightarrow> n = 31"
proof -
  have e: "(0x80000000 :: u32) = 2 ^ 31" by simp
  have "bit (2 ^ 31 :: u32) n \<longleftrightarrow> n = 31"
    by (simp only: bit_exp_iff) (auto simp: possible_bit_word)
  then show ?thesis unfolding e .
qed

lemma bit_flag_int: "bit (0x80000000 :: int) n \<longleftrightarrow> n = 31"
proof -
  have e: "(0x80000000 :: int) = 2 ^ 31" by simp
  have "bit (2 ^ 31 :: int) n \<longleftrightarrow> n = 31"
    by (simp only: bit_exp_iff) (auto simp: possible_bit_def)
  then show ?thesis unfolding e .
qed

lemma flag_set_size: "(x OR 0x80000000) AND 0x7fffffff = x AND (0x7fffffff :: u32)"
  unfolding size_mask by (rule bit_word_eqI) (auto simp: bit_simps bit_flag bit_flag_int)

lemma flag_set_flag: "(x OR 0x80000000) AND 0x80000000 = (0x80000000 :: u32)"
  unfolding size_mask by (rule bit_word_eqI) (auto simp: bit_simps bit_flag bit_flag_int)

lemma size_set_size:
  "((x AND 0x80000000) OR (s AND 0x7fffffff)) AND 0x7fffffff = s AND (0x7fffffff :: u32)"
  unfolding size_mask by (rule bit_word_eqI) (auto simp: bit_simps bit_flag bit_flag_int)

lemma size_set_flag:
  "((x AND 0x80000000) OR (s AND 0x7fffffff)) AND 0x80000000 = x AND (0x80000000 :: u32)"
  unfolding size_mask by (rule bit_word_eqI) (auto simp: bit_simps bit_flag bit_flag_int)

lemma flag_clear_flag: "(x AND 0x7fffffff) AND 0x80000000 = (0 :: u32)"
  unfolding size_mask by (rule bit_word_eqI) (auto simp: bit_simps bit_flag bit_flag_int)

lemmas masks = flag_set_size flag_set_flag size_set_size size_set_flag flag_clear_flag

lemma size_le_max: "x AND 0x7fffffff \<le> (0x7fffffff :: u32)"
  by (rule word_and_le1)

lemma size_fits: "s \<le> y AND 0x7fffffff \<Longrightarrow> s AND 0x7fffffff = (s :: u32)"
proof -
  assume "s \<le> y AND 0x7fffffff"
  then have "s \<le> 0x7fffffff" using size_le_max [of y] by (rule order_trans)
  then have "s < 2 ^ 31" by (simp add: word_less_nat_alt word_le_nat_alt)
  then show ?thesis unfolding size_mask by (rule less_mask_eq)
qed

lemma leftover:
  fixes R a f S :: u32
  assumes "R + a + f \<le> S" "unat R + unat a + unat f < 2 ^ 32" "S \<le> 0x7fffffff"
  shows "unat ((S - R - f) AND 0x7fffffff) + unat R + unat f = unat S"
proof -
  have 1: "unat (R + a + f) = unat R + unat a + unat f"
    using assms(2) by (simp add: unat_word_ariths)
  with assms(1) have 2: "unat R + unat a + unat f \<le> unat S"
    by (simp add: word_le_nat_alt)
  have 3: "unat (S - R - f) = unat S - unat R - unat f"
    using 2 by (simp add: unat_sub_if' unat_sub word_le_nat_alt)
  have "S - R - f \<le> 0x7fffffff"
    using 3 assms(3) by (simp add: word_le_nat_alt)
  then have "(S - R - f) AND 0x7fffffff = S - R - f"
    using size_fits [of "S - R - f" "0x7fffffff"] by simp
  then show ?thesis using 2 3 by simp
qed

section \<open>What a write to one header leaves alone\<close>

lemma set_size_flags_fields [simp]:
  "m_size (set_size_flags A b v) = m_size A"
  "m_align_bytes (set_size_flags A b v) = m_align_bytes A"
  "m_block_alignment (set_size_flags A b v) = m_block_alignment A"
  "m_occupied (set_size_flags A b v) = m_occupied A"
  by (simp_all add: set_size_flags_def)

lemma set_prev_fields [simp]:
  "m_size (set_prev A b v) = m_size A"
  "m_align_bytes (set_prev A b v) = m_align_bytes A"
  "m_block_alignment (set_prev A b v) = m_block_alignment A"
  "m_occupied (set_prev A b v) = m_occupied A"
  by (simp_all add: set_prev_def)

lemma set_ops_fields [simp]:
  "m_size (set_free A b) = m_size A"
  "m_align_bytes (set_free A b) = m_align_bytes A"
  "m_block_alignment (set_free A b) = m_block_alignment A"
  "m_occupied (set_free A b) = m_occupied A"
  "m_size (set_occupied A b) = m_size A"
  "m_align_bytes (set_occupied A b) = m_align_bytes A"
  "m_block_alignment (set_occupied A b) = m_block_alignment A"
  "m_occupied (set_occupied A b) = m_occupied A"
  "m_size (set_size A b s) = m_size A"
  "m_align_bytes (set_size A b s) = m_align_bytes A"
  "m_block_alignment (set_size A b s) = m_block_alignment A"
  "m_occupied (set_size A b s) = m_occupied A"
  by (simp_all add: set_free_def set_occupied_def set_size_def)

lemma header_m_occupied [simp]:
  "size_flags (A\<lparr>m_occupied := x\<rparr>) b = size_flags A b"
  "prev (A\<lparr>m_occupied := x\<rparr>) b = prev A b"
  "get_size (A\<lparr>m_occupied := x\<rparr>) b = get_size A b"
  "is_free (A\<lparr>m_occupied := x\<rparr>) b = is_free A b"
  "is_occupied (A\<lparr>m_occupied := x\<rparr>) b = is_occupied A b"
  "get_next (A\<lparr>m_occupied := x\<rparr>) b = get_next A b"
  by (simp_all add: size_flags_def prev_def get_size_def is_free_def is_occupied_def
        get_next_def)

lemma size_flags_set_size_flags_same [simp]:
  "size_flags (set_size_flags A b v) b = v"
  by (simp add: size_flags_def set_size_flags_def load32_store32_same)

lemma size_flags_set_size_flags_other:
  "b' + 4 \<le> b \<or> b + 4 \<le> b' \<Longrightarrow> size_flags (set_size_flags A b v) b' = size_flags A b'"
  by (simp add: size_flags_def set_size_flags_def load32_store32_other)

lemma prev_set_prev_same [simp]:
  "prev (set_prev A b v) b = v"
  by (simp add: prev_def set_prev_def load32_store32_same)

lemma size_flags_set_prev_same [simp]:
  "size_flags (set_prev A b v) b = size_flags A b"
  by (simp add: size_flags_def set_prev_def load32_store32_other)

lemma size_flags_set_prev_other:
  "b' \<le> b \<or> b + 8 \<le> b' \<Longrightarrow> size_flags (set_prev A b v) b' = size_flags A b'"
  using load32_store32_other [of b' "b + 4" "m_mem A" v]
  by (auto simp: size_flags_def set_prev_def)

lemma size_flags_other:
  "b' + 4 \<le> b \<or> b + 4 \<le> b' \<Longrightarrow> size_flags (set_size A b s) b' = size_flags A b'"
  "b' + 4 \<le> b \<or> b + 4 \<le> b' \<Longrightarrow> size_flags (set_free A b) b' = size_flags A b'"
  "b' + 4 \<le> b \<or> b + 4 \<le> b' \<Longrightarrow> size_flags (set_occupied A b) b' = size_flags A b'"
  by (simp_all add: set_size_def set_free_def set_occupied_def size_flags_set_size_flags_other)

lemma same_size_flags:
  assumes "size_flags A b = size_flags B b"
  shows "get_size A b = get_size B b" "is_occupied A b = is_occupied B b"
    "is_free A b = is_free B b"
  using assms by (simp_all add: get_size_def is_occupied_def is_free_def)

lemma set_occupied_same [simp]:
  "get_size (set_occupied A b) b = get_size A b"
  "is_occupied (set_occupied A b) b"
  by (simp_all add: set_occupied_def get_size_def is_occupied_def masks)

lemma set_size_same [simp]:
  "get_size (set_size A b s) b = s AND 0x7fffffff"
  "is_occupied (set_size A b s) b = is_occupied A b"
  "is_free (set_size A b s) b = is_free A b"
  by (simp_all add: set_size_def get_size_def is_occupied_def is_free_def masks)

lemma set_free_same [simp]:
  "get_size (set_free A b) b = get_size A b"
  "is_free (set_free A b) b"
  by (simp_all add: set_free_def get_size_def is_free_def masks)

lemma set_prev_same [simp]:
  "get_size (set_prev A b v) b = get_size A b"
  "is_free (set_prev A b v) b = is_free A b"
  "is_occupied (set_prev A b v) b = is_occupied A b"
  by (simp_all add: get_size_def is_free_def is_occupied_def)

section \<open>The first-fit loop\<close>

lemma alloc_loop_Some:
  "alloc_loop A R b0 = Some b \<Longrightarrow> \<not> is_occupied A b \<and> \<not> get_size A b < R"
proof (induction A R b0 rule: alloc_loop.induct)
  case (1 A R b0)
  show ?case
  proof (cases "is_occupied A b0 \<or> get_size A b0 < R")
    case True
    with "1.prems" obtain n where n: "get_next A b0 = Some n" and "alloc_loop A R n = Some b"
      by (auto split: option.splits)
    with "1.IH" True show ?thesis by blast
  next
    case False
    with "1.prems" have "b = b0" by simp
    with False show ?thesis by simp
  qed
qed

section \<open>Where the next block is looked for\<close>

text \<open>
  Claim C1 (the code departs from it). The claim puts the next header at the block's
  address plus the header footprint plus the payload size. \<open>get_next\<close> adds the payload
  size only. In a fresh 72-byte buffer the one block has footprint 8 and payload 64, so
  footprint plus payload is the buffer's end and the claim says there is no next block;
  \<open>get_next\<close> answers the address 64, inside that block's payload. After \<open>alloc 8\<close>
  the caller owns the bytes from 8 on, and 8 is also where \<open>get_next\<close> finds the next
  header.
\<close>

theorem get_next_omits_header_footprint:
  "get_next (fresh 72) 0 = Some 64 \<and>
   uint (m_block_alignment (fresh 72)) + uint (get_size (fresh 72) 0) = uint (m_size (fresh 72)) \<and>
   map_option fst (alloc (fresh 72) 8) = Some (Some 8) \<and>
   get_size (after_alloc (fresh 72) 8) 0 = 8 \<and>
   get_next (after_alloc (fresh 72) 8) 0 = Some 8"
  by (simp add: run cong: let_weak_cong)

section \<open>The blocks and the bytes of the buffer\<close>

text \<open>
  Claim C2 (the code departs from it). The claim says that footprint plus payload,
  summed over the blocks, is the size of the buffer after every sequence of calls. In a
  fresh 72-byte buffer the allocator walks two blocks, at 0 and at 64, which stand for
  80 bytes. After \<open>alloc 8\<close> and the release of its result the blocks are at 0 and 56:
  the first stands for 64 bytes, the second has size 0, and the last 8 bytes of the
  buffer belong to neither.
\<close>

theorem blocks_do_not_tile:
  "blocks_from (fresh 72) 0 = [0, 64] \<and>
   extent_sum (fresh 72) = 80 \<and>
   map_option fst (alloc (fresh 72) 8) = Some (Some 8) \<and>
   blocks_from (free (after_alloc (fresh 72) 8) 8) 0 = [0, 56] \<and>
   extent (free (after_alloc (fresh 72) 8) 8) 0 = 64 \<and>
   get_size (free (after_alloc (fresh 72) 8) 8) 56 = 0 \<and>
   uint (total_bytes (free (after_alloc (fresh 72) 8) 8)) = 72"
  by (simp add: run extent_def extent_sum_def cong: let_weak_cong)

section \<open>The occupied-bytes counter on release\<close>

text \<open>
  Claim C3 (the code departs from it). When both neighbours are free, \<open>free\<close> merges
  twice but takes one footprint off the counter, not two: \<open>remove_block\<close> is a flag.
  Two blocks of 8 bytes are allocated in the 72-byte buffer and the first is released.
  The second, at address 8, then has the free block at 0 before it and the free block
  at 16 after it. Releasing it lowers the counter from 32 to 16, which is its payload of
  8 and one footprint of 8; the claim asks for 8 and two footprints.
\<close>

theorem free_both_neighbours_one_footprint:
  "map_option fst (alloc (fresh 72) 8) = Some (Some 8) \<and>
   map_option fst (alloc (after_alloc (fresh 72) 8) 8) = Some (Some 16) \<and>
   get_prev (free two_allocated 8) 8 = Some 0 \<and>
   is_free (free two_allocated 8) 0 \<and>
   get_next (free two_allocated 8) 8 = Some 16 \<and>
   is_free (free two_allocated 8) 16 \<and>
   get_size (free two_allocated 8) 8 = 8 \<and>
   m_block_alignment (free two_allocated 8) = 8 \<and>
   occupied_bytes (free two_allocated 8) = 32 \<and>
   get_size (free (free two_allocated 8) 16) 0 = 48 \<and>
   occupied_bytes (free (free two_allocated 8) 16) = 16"
  by (simp add: run two_allocated_def cong: let_weak_cong)

text \<open>
  The flag makes this so in every state: a release whose header address is inside the
  buffer takes the block's payload size off the counter and then either nothing or one
  footprint, whatever was merged.
\<close>

lemma free_prev_counter:
  "free_prev (A, b, r) = (A', b', r') \<Longrightarrow>
     m_occupied A' = m_occupied A \<and> m_block_alignment A' = m_block_alignment A"
  by (auto simp: free_prev_def split: option.splits if_splits)

lemma free_next_counter:
  "free_next (A, b, r) = (A', b', r') \<Longrightarrow>
     m_occupied A' = m_occupied A \<and> m_block_alignment A' = m_block_alignment A"
  by (auto simp: free_next_def split: option.splits if_splits)

lemma free_one_footprint:
  assumes "0 \<le> mem - uint (m_block_alignment A)"
    and "mem - uint (m_block_alignment A) < uint (m_size A)"
  shows "occupied_bytes (free A mem) =
           occupied_bytes A - get_size A (mem - uint (m_block_alignment A)) \<or>
         occupied_bytes (free A mem) =
           occupied_bytes A - get_size A (mem - uint (m_block_alignment A)) -
             m_block_alignment A"
proof -
  let ?b = "mem - uint (m_block_alignment A)"
  let ?A2 = "(set_free A ?b)\<lparr>m_occupied := m_occupied A - get_size A ?b\<rparr>"
  obtain A3 b3 r3 where p: "free_prev (?A2, ?b, False) = (A3, b3, r3)"
    by (cases "free_prev (?A2, ?b, False)") auto
  obtain A4 b4 r4 where n: "free_next (A3, b3, r3) = (A4, b4, r4)"
    by (cases "free_next (A3, b3, r3)") auto
  from free_prev_counter [OF p] free_next_counter [OF n]
  have c: "m_occupied A4 = m_occupied A - get_size A ?b"
    "m_block_alignment A4 = m_block_alignment A"
    by simp_all
  from assms p n have "free A mem =
      (if r4 then A4\<lparr>m_occupied := m_occupied A4 - m_block_alignment A4\<rparr> else A4)"
    by (simp add: free_def Let_def not_le)
  with c show ?thesis
    by (simp add: occupied_bytes_def)
qed

section \<open>The size of a merged block\<close>

text \<open>
  Claim C4 (the code departs from it). A merge adds the two payload sizes and leaves the
  absorbed header's footprint out. Forward: after \<open>alloc 8\<close> in the 72-byte buffer the
  block at 0 has payload 8 and the free block after it payload 48; releasing the first
  gives it payload 56, not 8 + 8 + 48. Backward: with three blocks of 8 allocated and
  the first released, releasing the second (its next block is occupied) gives the block
  at 0 payload 16, not 8 + 8 + 8.
\<close>

theorem coalescing_adds_payload_only:
  "m_block_alignment (after_alloc (fresh 72) 8) = 8 \<and>
   get_size (after_alloc (fresh 72) 8) 0 = 8 \<and>
   get_next (after_alloc (fresh 72) 8) 0 = Some 8 \<and>
   is_free (after_alloc (fresh 72) 8) 8 \<and>
   get_size (after_alloc (fresh 72) 8) 8 = 48 \<and>
   get_size (free (after_alloc (fresh 72) 8) 8) 0 = 56 \<and>
   map_option fst (alloc (after_alloc (after_alloc (fresh 72) 8) 8) 8) = Some (Some 24) \<and>
   get_prev (free three_allocated 8) 8 = Some 0 \<and>
   is_free (free three_allocated 8) 0 \<and>
   get_size (free three_allocated 8) 0 = 8 \<and>
   get_size (free three_allocated 8) 8 = 8 \<and>
   get_next (free three_allocated 8) 8 = Some 16 \<and>
   is_occupied (free three_allocated 8) 16 \<and>
   get_size (free (free three_allocated 8) 16) 0 = 16"
  by (simp add: run three_allocated_def cong: let_weak_cong)

section \<open>Free neighbours after a release\<close>

text \<open>
  Claim C5 (the code departs from it). After \<open>alloc 8\<close> in the 72-byte buffer and the
  release of its result, the merged free block at 0 has a next block, at 56, and that
  block is free.
\<close>

theorem free_leaves_free_neighbour:
  "map_option fst (alloc (fresh 72) 8) = Some (Some 8) \<and>
   is_free (free (after_alloc (fresh 72) 8) 8) 0 \<and>
   get_next (free (after_alloc (fresh 72) 8) 8) 0 = Some 56 \<and>
   is_free (free (after_alloc (fresh 72) 8) 8) 56"
  by (simp add: run cong: let_weak_cong)

section \<open>The split\<close>

text \<open>
  Claim C6 (the code departs from it). The claim has the header of the new block written
  immediately after the shrunk block, which is the block's address plus the footprint
  plus \<open>R\<close>. \<open>alloc\<close> writes it at \<open>get_next\<close> of the shrunk block, \<open>R\<close> bytes after the
  block's header address. In the fresh 72-byte buffer \<open>alloc 8\<close> takes the block at 0,
  shrinks it to 8 bytes and returns its payload address 8: the block ends at 16. The new
  header, with size 48 and \<open>prev\<close> 8, is at 8, the address handed to the caller, and the
  eight bytes at 16 are still zero.
\<close>

theorem split_header_inside_payload:
  "map_option fst (alloc (fresh 72) 8) = Some (Some 8) \<and>
   m_block_alignment (after_alloc (fresh 72) 8) = 8 \<and>
   get_size (after_alloc (fresh 72) 8) 0 = 8 \<and>
   size_flags (after_alloc (fresh 72) 8) 8 = 48 \<and>
   prev (after_alloc (fresh 72) 8) 8 = 8 \<and>
   size_flags (after_alloc (fresh 72) 8) 16 = 0 \<and>
   prev (after_alloc (fresh 72) 8) 16 = 0"
  by (simp add: run cong: let_weak_cong)

text \<open>
  What the split does do, in every state. Let \<open>alloc\<close> return a pointer \<open>p\<close> for a request
  rounded to \<open>R\<close>, let \<open>b\<close> be the header address of the block it took (\<open>p\<close> minus the
  footprint) and \<open>S\<close> that block's payload size before the call. The block was the loop's
  answer, free and of size at least \<open>R\<close>. If \<open>S \<ge> R + m_align_bytes + m_block_alignment\<close>
  (in 32-bit arithmetic, as the code compares) the block is split: the header at
  \<open>n = b + R\<close>, the address \<open>get_next\<close> gives for the shrunk block, is free, its size is
  the leftover \<open>S - R - m_block_alignment\<close> (the low 31 bits; unless the sum above wraps
  these are exactly the bytes left of \<open>S\<close>), and its \<open>prev\<close> is \<open>R\<close>; the block at \<open>b\<close> is
  occupied with size \<open>R\<close> as long as \<open>R\<close> is at least 4, so that the header written at
  \<open>n\<close> starts past the size field of \<open>b\<close>. Otherwise the block is not split and is handed
  out occupied with its size \<open>S\<close>. A call that passes the split test and then writes
  through null returns nothing and is not covered.
\<close>

lemma alloc_split_policy:
  assumes ret: "alloc A N = Some (Some p, A')"
    and R: "R = align_num_bytes A N"
    and b: "b = p - uint (m_block_alignment A)"
    and S: "S = get_size A b"
    and n: "n = b + uint R"
  shows "alloc_loop A R 0 = Some b \<and> is_free A b \<and> R \<le> S \<and>
    (if R + m_align_bytes A + m_block_alignment A \<le> S
     then is_free A' n \<and>
          get_size A' n = (S - R - m_block_alignment A) AND 0x7fffffff \<and>
          (unat R + unat (m_align_bytes A) + unat (m_block_alignment A) < 2 ^ 32 \<longrightarrow>
             unat (get_size A' n) + unat R + unat (m_block_alignment A) = unat S) \<and>
          prev A' n = R \<and>
          (4 \<le> uint R \<longrightarrow> is_occupied A' b \<and> get_size A' b = R \<and> get_next A' b = Some n)
     else is_occupied A' b \<and> get_size A' b = S)"
proof -
  from ret have N0: "N \<noteq> 0"
    by (auto simp: alloc_def)
  from ret N0 obtain b0 where loop: "alloc_loop A R 0 = Some b0"
    by (cases "alloc_loop A R 0") (auto simp: alloc_def R Let_def)
  let ?A1 = "set_occupied A b0"
  from alloc_loop_Some [OF loop] have sel: "is_free A b0" "R \<le> get_size A b0"
    by (simp_all add: is_free_def is_occupied_def not_less)
  then have R31: "R AND 0x7fffffff = R"
    by (simp add: get_size_def size_fits)
  have S31: "get_size A b0 \<le> 0x7fffffff"
    by (simp add: get_size_def size_le_max)
  show ?thesis
  proof (cases "R + m_align_bytes A + m_block_alignment A \<le> get_size A b0")
    case True
    let ?A2 = "set_size ?A1 b0 R"
    let ?fs = "get_size A b0 - R - m_block_alignment A"
    from ret N0 loop True obtain n0 where nx: "get_next ?A2 b0 = Some n0"
      by (cases "get_next ?A2 b0") (auto simp: alloc_def R [symmetric] Let_def)
    let ?A5 = "set_prev (set_size (set_free ?A2 n0) n0 ?fs) n0 R"
    from N0 loop True nx
    have "alloc A N = Some (Some (b0 + uint (m_block_alignment A)),
        ?A5\<lparr>m_occupied := m_occupied A + m_block_alignment A + get_size ?A5 b0\<rparr>)"
      by (simp add: alloc_def R [symmetric] Let_def)
    with ret have res: "p = b0 + uint (m_block_alignment A)"
      "A' = ?A5\<lparr>m_occupied := m_occupied A + m_block_alignment A + get_size ?A5 b0\<rparr>"
      by simp_all
    from nx have n0: "n0 = b0 + uint R"
      by (auto simp: get_next_def Let_def R31 split: if_splits)
    have bb: "b0 = b" using res b by simp
    have nn: "n0 = n" using n0 n bb by simp
    have old: "size_flags ?A5 b0 = size_flags ?A2 b0" if "4 \<le> uint R"
      using that n0
      by (simp add: size_flags_other size_flags_set_prev_other)
    have new: "is_free A' n0" "get_size A' n0 = ?fs AND 0x7fffffff" "prev A' n0 = R"
      by (simp_all add: res)
    have left: "unat (get_size A' n0) + unat R + unat (m_block_alignment A) = unat (get_size A b0)"
      if "unat R + unat (m_align_bytes A) + unat (m_block_alignment A) < 2 ^ 32"
      using leftover [OF True that S31] new(2) by simp
    have shrunk: "is_occupied A' b0 \<and> get_size A' b0 = R \<and> get_next A' b0 = Some n0"
      if "4 \<le> uint R"
    proof -
      have "get_size ?A5 b0 = get_size ?A2 b0" "is_occupied ?A5 b0 = is_occupied ?A2 b0"
        by (rule same_size_flags [OF old [OF that]])+
      then have "get_size ?A5 b0 = R" "is_occupied ?A5 b0"
        by (simp_all add: R31)
      moreover from this nx have "get_next ?A5 b0 = Some n0"
        by (simp add: get_next_def Let_def R31)
      ultimately show ?thesis
        by (simp add: res)
    qed
    from new left shrunk True loop sel show ?thesis
      by (simp add: bb nn S)
  next
    case False
    from N0 loop False
    have "alloc A N = Some (Some (b0 + uint (m_block_alignment A)),
        ?A1\<lparr>m_occupied := m_occupied A + get_size A b0\<rparr>)"
      by (simp add: alloc_def R [symmetric] Let_def)
    with ret have res: "p = b0 + uint (m_block_alignment A)"
      "A' = ?A1\<lparr>m_occupied := m_occupied A + get_size A b0\<rparr>"
      by simp_all
    have bb: "b0 = b" using res b by simp
    have "is_occupied A' b0" "get_size A' b0 = get_size A b0"
      by (simp_all add: res)
    then show ?thesis
      using False loop sel by (simp add: bb S)
  qed
qed

lemma alloc_split_policy_example:
  "alloc (fresh 72) 8 = Some (Some 8, after_alloc (fresh 72) 8) \<and>
   align_num_bytes (fresh 72) 8 = 8 \<and>
   get_size (fresh 72) 0 = 64 \<and>
   alloc_loop (fresh 72) 8 0 = Some 0 \<and>
   is_free (after_alloc (fresh 72) 8) 8 \<and>
   get_size (after_alloc (fresh 72) 8) 8 = 48 \<and>
   prev (after_alloc (fresh 72) 8) 8 = 8 \<and>
   is_occupied (after_alloc (fresh 72) 8) 0 \<and>
   get_size (after_alloc (fresh 72) 8) 0 = 8 \<and>
   get_next (after_alloc (fresh 72) 8) 0 = Some 8 \<and>
   alloc (fresh 72) 64 = Some (Some 8, after_alloc (fresh 72) 64) \<and>
   align_num_bytes (fresh 72) 64 = 64 \<and>
   alloc_loop (fresh 72) 64 0 = Some 0 \<and>
   is_occupied (after_alloc (fresh 72) 64) 0 \<and>
   get_size (after_alloc (fresh 72) 64) 0 = 64"
proof -
  have vals: "align_num_bytes (fresh 72) 8 = 8" "align_num_bytes (fresh 72) 64 = 64"
    "m_block_alignment (fresh 72) = 8" "m_align_bytes (fresh 72) = 8"
    "get_size (fresh 72) 0 = 64"
    by (simp_all add: run)
  have split: "alloc (fresh 72) 8 = Some (Some 8, after_alloc (fresh 72) 8)"
    by (simp add: run cong: let_weak_cong)
  have whole: "alloc (fresh 72) 64 = Some (Some 8, after_alloc (fresh 72) 64)"
    by (simp add: run cong: let_weak_cong)
  from alloc_split_policy [OF split refl refl refl refl]
  have 1: "alloc_loop (fresh 72) 8 0 = Some 0 \<and>
     is_free (after_alloc (fresh 72) 8) 8 \<and>
     get_size (after_alloc (fresh 72) 8) 8 = 48 \<and>
     prev (after_alloc (fresh 72) 8) 8 = 8 \<and>
     is_occupied (after_alloc (fresh 72) 8) 0 \<and>
     get_size (after_alloc (fresh 72) 8) 0 = 8 \<and>
     get_next (after_alloc (fresh 72) 8) 0 = Some 8"
    by (simp add: vals)
  from alloc_split_policy [OF whole refl refl refl refl]
  have 2: "alloc_loop (fresh 72) 64 0 = Some 0 \<and>
     is_occupied (after_alloc (fresh 72) 64) 0 \<and>
     get_size (after_alloc (fresh 72) 64) 0 = 64"
    by (simp add: vals)
  from 1 2 split whole vals show ?thesis
    by simp
qed

text \<open>
  The bound on \<open>R\<close> is needed. With alignment 1 a request of 1 byte is rounded to 1,
  and the header of the new block, written one byte after the header of the block that
  was taken, overlays it: in a 20-byte buffer the block at 0 is split and afterwards reads
  as free with size 769.
\<close>

lemma split_overlays_small_block:
  "m_block_alignment (allocator_ctor zero_memory 20 1) = 8 \<and>
   get_size (allocator_ctor zero_memory 20 1) 0 = 12 \<and>
   map_option fst (alloc (allocator_ctor zero_memory 20 1) 1) = Some (Some 8) \<and>
   get_size (after_alloc (allocator_ctor zero_memory 20 1) 1) 0 = 769 \<and>
   is_free (after_alloc (allocator_ctor zero_memory 20 1) 1) 0"
  by code_simp

section \<open>Releasing a pointer whose header is outside the buffer\<close>

text \<open>
  Claim C7, as amended. \<open>free\<close> tests the header address, the pointer minus the header
  footprint, against the buffer: when that address is below the buffer's first byte or
  at or past its end, the call changes nothing, neither the memory nor a counter.
\<close>

theorem free_header_out_of_range:
  "mem - uint (m_block_alignment A) < 0 \<or> uint (m_size A) \<le> mem - uint (m_block_alignment A)
     \<Longrightarrow> free A mem = A"
  by (auto simp: free_def Let_def)

theorem free_header_out_of_range_witness:
  "free (fresh 72) 7 = fresh 72 \<and> free (fresh 72) 80 = fresh 72"
proof -
  have footprint: "uint (m_block_alignment (fresh 72)) = 8"
    by (simp add: run)
  have total: "uint (m_size (fresh 72)) = 72"
    by (simp add: run)
  have "free (fresh 72) 7 = fresh 72"
    by (rule free_header_out_of_range) (simp add: footprint)
  moreover have "free (fresh 72) 80 = fresh 72"
    by (rule free_header_out_of_range) (simp add: footprint total)
  ultimately show ?thesis by simp
qed

text \<open>
  Claim C7, as stated, fails for a pointer outside the buffer whose header address is
  inside it. The buffer has 72 bytes; \<open>alloc 64\<close> hands out its bytes 8 to 71, and the
  caller stores 16 in byte 64 of them. The pointer 72 is the first address past the
  buffer, yet \<open>free\<close> reads a header at 64 and lowers the occupied-bytes counter
  from 72 to 56.
\<close>

theorem free_past_end_counterexample:
  "map_option fst (alloc (fresh 72) 64) = Some (Some 8) \<and>
   uint (total_bytes (poke (after_alloc (fresh 72) 64) 64 16)) = 72 \<and>
   occupied_bytes (poke (after_alloc (fresh 72) 64) 64 16) = 72 \<and>
   occupied_bytes (free (poke (after_alloc (fresh 72) 64) 64 16) 72) = 56"
  by code_simp

section \<open>Allocating and releasing at once\<close>

text \<open>
  Claim C8 (the code departs from it). In the fresh 72-byte buffer the counter is 8.
  \<open>alloc 64\<close> succeeds without a split and raises it to 72. Releasing the result takes
  off the payload and then a footprint, for a merge with the bytes at 64 that
  \<open>get_next\<close> takes for a free block: the counter ends at 0, not at 8.
\<close>

theorem alloc_free_round_trip_fails:
  "map_option fst (alloc (fresh 72) 64) = Some (Some 8) \<and>
   occupied_bytes (fresh 72) = 8 \<and>
   occupied_bytes (after_alloc (fresh 72) 64) = 72 \<and>
   occupied_bytes (free (after_alloc (fresh 72) 64) 8) = 0"
  by (simp add: run cong: let_weak_cong)

text \<open>
  The counter does come back when \<open>alloc\<close> split the block (and the rounded request is
  at least 4 bytes, as in \<open>alloc_split_policy\<close>): the release then finds the free block of the split after
  it, merges, and takes off the payload and the one footprint that the split added.
\<close>

lemma get_next_bounds:
  "get_next A b = Some n \<Longrightarrow> b < n \<and> n < uint (m_size A) \<and> n = b + uint (get_size A b)"
  by (auto simp: get_next_def Let_def word_greater_zero_iff split: if_splits)
     (metis uint_0_iff uint_lt_0 linorder_neqE_linordered_idom)

lemma alloc_loop_ge: "alloc_loop A R b0 = Some b \<Longrightarrow> b0 \<le> b"
proof (induction A R b0 rule: alloc_loop.induct)
  case (1 A R b0)
  show ?case
  proof (cases "is_occupied A b0 \<or> get_size A b0 < R")
    case True
    with "1.prems" obtain n where n: "get_next A b0 = Some n" and "alloc_loop A R n = Some b"
      by (auto split: option.splits)
    with "1.IH" True get_next_bounds [OF n] show ?thesis by force
  next
    case False
    with "1.prems" show ?thesis by simp
  qed
qed

lemma free_next_keeps_flag: "free_next (A, b, True) = (A', b', r') \<Longrightarrow> r'"
  by (auto simp: free_next_def split: option.splits if_splits)

lemma free_prev_cases:
  "free_prev (A, b, False) = (A', b', r') \<Longrightarrow> r' \<or> (A' = A \<and> b' = b)"
  by (auto simp: free_prev_def split: option.splits if_splits)

lemma free_with_free_next:
  assumes range: "0 \<le> b" "b < uint (m_size X)"
    and nxt: "get_next X b = Some n" and fr: "is_free X n" and apart: "b + 4 \<le> n"
  shows "occupied_bytes (free X (b + uint (m_block_alignment X))) =
           occupied_bytes X - get_size X b - m_block_alignment X"
proof -
  let ?A2 = "(set_free X b)\<lparr>m_occupied := m_occupied X - get_size X b\<rparr>"
  obtain A3 b3 r3 where p: "free_prev (?A2, b, False) = (A3, b3, r3)"
    by (cases "free_prev (?A2, b, False)") auto
  obtain A4 b4 r4 where n: "free_next (A3, b3, r3) = (A4, b4, r4)"
    by (cases "free_next (A3, b3, r3)") auto
  have next2: "get_next ?A2 b = Some n"
    using nxt by (simp add: get_next_def)
  have "size_flags (set_free X b) n = size_flags X n"
    using apart by (simp add: size_flags_other)
  then have free2: "is_free ?A2 n"
    using fr by (simp add: is_free_def)
  have r4: "r4"
  proof (cases r3)
    case True
    with n show ?thesis by (auto dest: free_next_keeps_flag)
  next
    case False
    with free_prev_cases [OF p] have "A3 = ?A2" "b3 = b" by simp_all
    with n next2 free2 show ?thesis
      by (auto simp: free_next_def)
  qed
  from free_prev_counter [OF p] free_next_counter [OF n]
  have c: "m_occupied A4 = m_occupied X - get_size X b"
    "m_block_alignment A4 = m_block_alignment X"
    by simp_all
  from range p n r4 have "free X (b + uint (m_block_alignment X)) =
      A4\<lparr>m_occupied := m_occupied A4 - m_block_alignment A4\<rparr>"
    by (simp add: free_def Let_def not_le)
  with c show ?thesis
    by (simp add: occupied_bytes_def)
qed

lemma alloc_split_state:
  assumes ret: "alloc A N = Some (Some p, A')"
    and R: "R = align_num_bytes A N"
    and b: "b = p - uint (m_block_alignment A)"
    and split: "R + m_align_bytes A + m_block_alignment A \<le> get_size A b"
    and R4: "4 \<le> uint R"
  shows "m_occupied A' = m_occupied A + m_block_alignment A + R \<and>
         m_block_alignment A' = m_block_alignment A \<and> m_size A' = m_size A \<and>
         0 \<le> b \<and> get_size A' b = R \<and>
         get_next A' b = Some (b + uint R) \<and> is_free A' (b + uint R)"
proof -
  from ret have N0: "N \<noteq> 0"
    by (auto simp: alloc_def)
  from ret N0 obtain b0 where loop: "alloc_loop A R 0 = Some b0"
    by (cases "alloc_loop A R 0") (auto simp: alloc_def R Let_def)
  from alloc_loop_Some [OF loop] have "R \<le> get_size A b0"
    by (simp add: not_less)
  then have R31: "R AND 0x7fffffff = R"
    by (simp add: get_size_def size_fits)
  have bb: "b0 = b"
    using ret N0 loop b
    by (auto simp: alloc_def R [symmetric] Let_def split: if_splits option.splits)
  have b0: "0 \<le> b"
    using alloc_loop_ge [OF loop] bb by simp
  let ?A2 = "set_size (set_occupied A b) b R"
  from ret N0 loop split bb obtain n0 where nx: "get_next ?A2 b = Some n0"
    by (cases "get_next ?A2 b") (auto simp: alloc_def R [symmetric] Let_def)
  let ?A5 = "set_prev (set_size (set_free ?A2 n0) n0 (get_size A b - R - m_block_alignment A)) n0 R"
  from N0 loop split nx bb
  have "alloc A N = Some (Some (b + uint (m_block_alignment A)),
      ?A5\<lparr>m_occupied := m_occupied A + m_block_alignment A + get_size ?A5 b\<rparr>)"
    by (simp add: alloc_def R [symmetric] Let_def)
  with ret have res:
    "A' = ?A5\<lparr>m_occupied := m_occupied A + m_block_alignment A + get_size ?A5 b\<rparr>"
    by simp
  from nx have n0: "n0 = b + uint R"
    by (auto simp: get_next_def Let_def R31 split: if_splits)
  have "size_flags ?A5 b = size_flags ?A2 b"
    using R4 n0 by (simp add: size_flags_other size_flags_set_prev_other)
  then have "get_size ?A5 b = get_size ?A2 b"
    by (rule same_size_flags)
  then have size: "get_size ?A5 b = R"
    by (simp add: R31)
  with nx have "get_next ?A5 b = Some n0"
    by (simp add: get_next_def Let_def R31)
  moreover have "is_free ?A5 n0"
    by simp
  ultimately show ?thesis
    using size b0 by (simp add: res n0 [symmetric])
qed

lemma alloc_free_split_round_trip:
  assumes ret: "alloc A N = Some (Some p, A')"
    and R: "R = align_num_bytes A N"
    and b: "b = p - uint (m_block_alignment A)"
    and split: "R + m_align_bytes A + m_block_alignment A \<le> get_size A b"
    and R4: "4 \<le> uint R"
  shows "occupied_bytes (free A' p) = occupied_bytes A"
proof -
  note st = alloc_split_state [OF assms]
  from st have nxt: "get_next A' b = Some (b + uint R)" and fr: "is_free A' (b + uint R)"
    by simp_all
  from get_next_bounds [OF nxt] have "b < uint (m_size A')"
    by simp
  moreover from st have "0 \<le> b" by simp
  moreover have "b + 4 \<le> b + uint R" using R4 by simp
  ultimately have "occupied_bytes (free A' (b + uint (m_block_alignment A'))) =
      occupied_bytes A' - get_size A' b - m_block_alignment A'"
    using nxt fr by (intro free_with_free_next)
  moreover have "b + uint (m_block_alignment A') = p"
    using st b by simp
  ultimately show ?thesis
    using st by (simp add: occupied_bytes_def)
qed

section \<open>Rounding the request\<close>

text \<open>
  Claim C9 (the code departs from it). \<open>align_num_bytes\<close> rounds in 32-bit arithmetic:
  a request of \<open>0xFFFFFFFF\<close> bytes with alignment 8 is rounded to 0, not to the next
  multiple of 8. In a 16-byte buffer, whose one block has a payload of 8 bytes, \<open>alloc\<close>
  then takes that block and returns its payload address 8 instead of null. In the
  72-byte buffer the same request splits the block with a shrunk size of 0 and writes
  through the null pointer that \<open>get_next\<close> returns for it.
\<close>

theorem alloc_rounding_wraps:
  "align_num_bytes (fresh 16) 0xFFFFFFFF = 0 \<and>
   get_size (fresh 16) 0 = 8 \<and>
   map_option fst (alloc (fresh 16) 0xFFFFFFFF) = Some (Some 8) \<and>
   alloc (fresh 72) 0xFFFFFFFF = None"
  by (simp add: run cong: let_weak_cong)

text \<open>
  Where the rounding does not wrap, the claim holds. \<open>align_num_bytes\<close> then gives the
  least multiple of the alignment that is not below the request, and the pointer \<open>alloc\<close>
  returns is the payload address of the first block, in the order \<open>get_next\<close> walks
  them, that is free and large enough, or null when there is none.
\<close>

lemma align_num_bytes_unat:
  assumes a: "m_align_bytes A \<noteq> 0"
    and fit: "unat N + unat (m_align_bytes A) \<le> 2 ^ 32"
  shows "unat (align_num_bytes A N) =
           (if unat N mod unat (m_align_bytes A) = 0 then unat N
            else unat N - unat N mod unat (m_align_bytes A) + unat (m_align_bytes A))"
proof -
  let ?a = "m_align_bytes A"
  have q: "unat (N div ?a) = unat N div unat ?a" by (rule unat_div)
  have r: "unat (N mod ?a) = unat N mod unat ?a" by (rule unat_mod)
  have qa_le: "unat N div unat ?a * unat ?a \<le> unat N"
    by simp
  have N_lt: "unat N < 2 ^ LENGTH(32)" by (rule unsigned_less)
  have "unat (N div ?a) * unat ?a < 2 ^ LENGTH(32)"
    unfolding q by (rule le_less_trans [OF qa_le N_lt])
  then have qa: "unat (N div ?a * ?a) = unat N div unat ?a * unat ?a"
    by (simp add: unat_mult_lem [THEN iffD1] q)
  have split: "unat N = unat N div unat ?a * unat ?a + unat N mod unat ?a"
    by simp
  show ?thesis
  proof (cases "unat N mod unat ?a = 0")
    case True
    then have "N mod ?a = 0" using r by (simp add: unat_eq_0)
    with True qa split show ?thesis
      by (simp add: align_num_bytes_def)
  next
    case False
    have "N mod ?a \<noteq> 0"
    proof
      assume "N mod ?a = 0"
      then have "unat (N mod ?a) = unat (0 :: u32)" by (rule arg_cong)
      with r False show False by simp
    qed
    then have pos: "0 < N mod ?a" by (simp add: word_greater_zero_iff)
    have "unat N div unat ?a * unat ?a + unat ?a < 2 ^ 32"
      using fit False split by linarith
    then have "unat (N div ?a * ?a) + unat ?a < 2 ^ LENGTH(32)"
      using qa by simp
    then have "unat (N div ?a * ?a + ?a) = unat N div unat ?a * unat ?a + unat ?a"
      using qa by (simp add: unat_add_lem [THEN iffD1])
    moreover have "unat N div unat ?a * unat ?a = unat N - unat N mod unat ?a"
      using split by linarith
    ultimately show ?thesis
      using False pos by (simp add: align_num_bytes_def)
  qed
qed

lemma align_num_bytes_rounds_up:
  assumes "m_align_bytes A \<noteq> 0" and "unat N + unat (m_align_bytes A) \<le> 2 ^ 32"
  shows "unat (m_align_bytes A) dvd unat (align_num_bytes A N) \<and>
         unat N \<le> unat (align_num_bytes A N) \<and>
         unat (align_num_bytes A N) < unat N + unat (m_align_bytes A)"
proof -
  let ?a = "unat (m_align_bytes A)"
  have a0: "0 < ?a" using assms(1) by (simp add: unat_gt_0)
  have r: "unat N mod ?a < ?a" using a0 by simp
  have d: "?a dvd unat N - unat N mod ?a"
    by (simp add: dvd_minus_mod)
  have le: "unat N mod ?a \<le> unat N" by simp
  show ?thesis
  proof (cases "unat N mod ?a = 0")
    case True
    then show ?thesis
      using a0 by (simp add: align_num_bytes_unat [OF assms] mod_eq_0_iff_dvd)
  next
    case False
    have eq: "unat (align_num_bytes A N) = unat N - unat N mod ?a + ?a"
      unfolding align_num_bytes_unat [OF assms] by (simp only: False if_False)
    have 1: "?a dvd unat N - unat N mod ?a + ?a" by (rule dvd_add [OF d dvd_refl])
    have 2: "unat N \<le> unat N - unat N mod ?a + ?a" using r le by linarith
    have 3: "unat N - unat N mod ?a + ?a < unat N + ?a" using False le by linarith
    show ?thesis unfolding eq using 1 2 3 by blast
  qed
qed

lemma is_free_iff: "is_free A b \<longleftrightarrow> \<not> is_occupied A b"
  by (simp add: is_free_def is_occupied_def)

lemma alloc_loop_find:
  "alloc_loop A R b = List.find (\<lambda>c. is_free A c \<and> R \<le> get_size A c) (blocks_from A b)"
proof (induction A R b rule: alloc_loop.induct)
  case (1 A R b)
  have loop: "alloc_loop A R b =
      (if is_occupied A b \<or> get_size A b < R
       then (case get_next A b of None \<Rightarrow> None | Some n \<Rightarrow> alloc_loop A R n)
       else Some b)"
    by (rule alloc_loop.simps)
  have blocks: "blocks_from A b =
      b # (case get_next A b of None \<Rightarrow> [] | Some n \<Rightarrow> blocks_from A n)"
    by (rule blocks_from.simps)
  show ?case
  proof (cases "is_occupied A b \<or> get_size A b < R")
    case True
    then have skip: "\<not> (is_free A b \<and> R \<le> get_size A b)"
      by (auto simp: is_free_iff)
    show ?thesis
    proof (cases "get_next A b")
      case None
      with True skip show ?thesis
        unfolding loop blocks by (simp del: alloc_loop.simps blocks_from.simps)
    next
      case (Some n)
      with True skip "1.IH" [OF True Some] show ?thesis
        unfolding loop blocks by (auto simp del: alloc_loop.simps blocks_from.simps)
    qed
  next
    case False
    then have "is_free A b \<and> R \<le> get_size A b"
      by (auto simp: is_free_iff not_less)
    with False show ?thesis
      unfolding loop blocks by (simp del: alloc_loop.simps blocks_from.simps)
  qed
qed

lemma alloc_first_fit:
  assumes "alloc A N = Some (p, A')" and "N \<noteq> 0"
  shows "p = map_option (\<lambda>b. b + uint (m_block_alignment A))
               (List.find (\<lambda>b. is_free A b \<and> align_num_bytes A N \<le> get_size A b)
                  (blocks_from A 0))"
proof (cases "alloc_loop A (align_num_bytes A N) 0")
  case None
  with assms have "p = None"
    by (simp add: alloc_def del: alloc_loop.simps)
  with None show ?thesis
    by (simp add: alloc_loop_find [symmetric] del: alloc_loop.simps blocks_from.simps)
next
  case (Some b)
  with assms have "p = Some (b + uint (m_block_alignment A))"
    by (auto simp: alloc_def Let_def simp del: alloc_loop.simps split: if_splits option.splits)
  with Some show ?thesis
    by (simp add: alloc_loop_find [symmetric] del: alloc_loop.simps blocks_from.simps)
qed

section \<open>A block of size zero ends the list\<close>

text \<open>
  Claim C10. A block whose payload size is 0 has no next block, also when the address
  \<open>get_next\<close> computes for it (the block's own address) lies inside the buffer. The
  first-fit loop therefore stops at such a block with no block found whenever the
  request is not 0 (a request of 0 bytes takes the block if it is free), and the forward
  step of \<open>free\<close> leaves the allocator, the block and the flag as they are.
\<close>

theorem zero_size_block_ends_list:
  "get_size A b = 0 \<Longrightarrow>
     get_next A b = None \<and>
     alloc_loop A num_bytes b = (if is_occupied A b \<or> 0 < num_bytes then None else Some b) \<and>
     free_next (A, b, remove_block) = (A, b, remove_block)"
  by (simp add: get_next_def free_next_def word_greater_zero_iff)

theorem zero_size_block_ends_list_witness:
  "get_size (fresh 72) 64 = 0 \<and> 0 \<le> (64 :: int) \<and> 64 < uint (m_size (fresh 72)) \<and>
   get_next (fresh 72) 64 = None \<and>
   alloc_loop (fresh 72) 8 64 = None \<and>
   free_next (fresh 72, 64, False) = (fresh 72, 64, False)"
proof -
  have size0: "get_size (fresh 72) 64 = 0"
    by (simp add: run)
  have inside: "64 < uint (m_size (fresh 72))"
    by (simp add: run)
  from zero_size_block_ends_list [OF size0, of 8 False] size0 inside
  show ?thesis by simp
qed

end
